theory Spec2Isabelle
  imports Main "HOL-Library.Char_ord" "HOL-Library.List_Lexorder"
begin

section \<open>Strings of the host language\<close>

text \<open>
  A JavaScript string is a sequence of code units; it is modelled as a HOL \<open>string\<close>,
  one \<open>char\<close> per code unit, so \<open>length\<close> is the \<open>.length\<close> of the source. HOL's
  \<open>char\<close> is eight bits wide: the white space and the line terminators of the model are
  the ones with a code below 256.
\<close>

definition isWhiteSpace :: "char \<Rightarrow> bool" where
  \<comment> \<open>what \<open>\s\<close> matches and what \<open>trim\<close> strips: TAB, LF, VT, FF, CR, SP, NBSP\<close>
  "isWhiteSpace c \<longleftrightarrow>
     c \<in> {CHR 0x09, CHR 0x0A, CHR 0x0B, CHR 0x0C, CHR 0x0D, CHR 0x20, CHR 0xA0}"

definition isLineTerminator :: "char \<Rightarrow> bool" where
  \<comment> \<open>what \<open>.\<close> does not match: LF and CR\<close>
  "isLineTerminator c \<longleftrightarrow> c \<in> {CHR 0x0A, CHR 0x0D}"

definition isAsciiLetter :: "char \<Rightarrow> bool" where
  \<comment> \<open>the class \<open>[a-z]\<close> under the flag \<open>i\<close>\<close>
  "isAsciiLetter c \<longleftrightarrow>
     (CHR ''a'' \<le> c \<and> c \<le> CHR ''z'') \<or> (CHR ''A'' \<le> c \<and> c \<le> CHR ''Z'')"

definition toLowerChar :: "char \<Rightarrow> char" where
  "toLowerChar c =
     (case map_of (zip ''ABCDEFGHIJKLMNOPQRSTUVWXYZ'' ''abcdefghijklmnopqrstuvwxyz'') c of
        Some l \<Rightarrow> l
      | None \<Rightarrow> c)"

definition toLowerCase :: "string \<Rightarrow> string" where
  \<comment> \<open>the program lower-cases two-letter codes only\<close>
  "toLowerCase s = map toLowerChar s"

definition trimLeft :: "string \<Rightarrow> string" where
  "trimLeft s = dropWhile isWhiteSpace s"

definition trimRight :: "string \<Rightarrow> string" where
  "trimRight s = rev (dropWhile isWhiteSpace (rev s))"

definition trim :: "string \<Rightarrow> string" where
  "trim s = trimRight (trimLeft s)"

definition startsWith :: "string \<Rightarrow> string \<Rightarrow> bool" where
  \<comment> \<open>\<open>s.startsWith(p)\<close>\<close>
  "startsWith s p \<longleftrightarrow> take (length p) s = p"

definition endsWith :: "string \<Rightarrow> string \<Rightarrow> bool" where
  \<comment> \<open>\<open>s.endsWith(p)\<close>\<close>
  "endsWith s p \<longleftrightarrow> length p \<le> length s \<and> drop (length s - length p) s = p"

fun includesStr :: "string \<Rightarrow> string \<Rightarrow> bool" where
  \<comment> \<open>\<open>s.includes(p)\<close>\<close>
  "includesStr [] p = (p = [])"
| "includesStr (c # cs) p = (startsWith (c # cs) p \<or> includesStr cs p)"

fun splitOn :: "char \<Rightarrow> string \<Rightarrow> string list" where
  \<comment> \<open>\<open>s.split(c)\<close> for a separator of one code unit\<close>
  "splitOn sep [] = [[]]"
| "splitOn sep (c # cs) =
     (if c = sep then [] # splitOn sep cs
      else (case splitOn sep cs of
              [] \<Rightarrow> [[c]]
            | p # ps \<Rightarrow> (c # p) # ps))"

fun join :: "string \<Rightarrow> string list \<Rightarrow> string" where
  \<comment> \<open>\<open>parts.join(sep)\<close>\<close>
  "join sep [] = []"
| "join sep [p] = p"
| "join sep (p # q # ps) = p @ sep @ join sep (q # ps)"

fun beforeFirst :: "string \<Rightarrow> string \<Rightarrow> string" where
  \<comment> \<open>\<open>s.split(p)[0]\<close> for a non-empty \<open>p\<close>: the text before the first occurrence of \<open>p\<close>\<close>
  "beforeFirst [] p = []"
| "beforeFirst (c # cs) p = (if startsWith (c # cs) p then [] else c # beforeFirst cs p)"

definition substring :: "string \<Rightarrow> nat \<Rightarrow> nat \<Rightarrow> string" where
  \<comment> \<open>\<open>s.substring(a, b)\<close>: the two indices are swapped when \<open>a > b\<close>\<close>
  "substring s a b = take (max a b - min a b) (drop (min a b) s)"

definition truthy :: "string option \<Rightarrow> bool" where
  \<comment> \<open>an optional string used as a condition: \<open>undefined\<close> and \<open>''''\<close> are false\<close>
  "truthy s \<longleftrightarrow> (case s of None \<Rightarrow> False | Some t \<Rightarrow> t \<noteq> [])"

section \<open>The index\<close>

text \<open>
  The interface \<open>I18nEntry\<close>; its fields \<open>value\<close> and \<open>file\<close> are called \<open>val\<close> and
  \<open>sourceFile\<close> here.
\<close>

record I18nEntry =
  key :: string
  val :: string
  sourceFile :: string
  lang :: "string option"
  fileLine :: "nat option"

text \<open>
  A JavaScript \<open>Map\<close> enumerates its keys in the order of their first insertion, and
  \<open>set\<close> on a key that is present replaces the value where it stands.
\<close>

fun mapSet :: "'k \<Rightarrow> 'v \<Rightarrow> ('k \<times> 'v) list \<Rightarrow> ('k \<times> 'v) list" where
  "mapSet k v [] = [(k, v)]"
| "mapSet k v ((k', v') # m) = (if k' = k then (k, v) # m else (k', v') # mapSet k v m)"

subsection \<open>Post-processing\<close>

definition langOrUnknown :: "I18nEntry \<Rightarrow> string" where
  \<comment> \<open>\<open>entry.lang || 'unknown'\<close>\<close>
  "langOrUnknown e =
     (case lang e of
        Some l \<Rightarrow> if l \<noteq> [] then l else ''unknown''
      | None \<Rightarrow> ''unknown'')"

definition uniqueKey :: "I18nEntry \<Rightarrow> string" where
  "uniqueKey e = langOrUnknown e @ ''_'' @ key e"

definition removeDuplicateEntries :: "I18nEntry list \<Rightarrow> I18nEntry list" where
  "removeDuplicateEntries es = map snd (foldl (\<lambda>m e. mapSet (uniqueKey e) e m) [] es)"

definition keyMatch :: "string \<Rightarrow> (string \<times> string) option" where
  \<comment> \<open>\<open>key.match(/^([a-z]{2})\.(.+)$/i)\<close>: the groups 1 and 2\<close>
  "keyMatch k =
     (case k of
        a # b # d # r \<Rightarrow>
          if isAsciiLetter a \<and> isAsciiLetter b \<and> d = CHR ''.'' \<and> r \<noteq> []
             \<and> \<not> (\<exists>c \<in> set r. isLineTerminator c)
          then Some ([a, b], r) else None
      | _ \<Rightarrow> None)"

definition normalizeEntry :: "I18nEntry \<Rightarrow> I18nEntry" where
  \<comment> \<open>the body of the loop of \<open>normalizeI18nKeys\<close>\<close>
  "normalizeEntry e =
     (case keyMatch (key e) of
        Some (code, rest) \<Rightarrow>
          (let langFromKey = toLowerCase code; normalizedKey = rest
           in if \<not> truthy (lang e) \<or> lang e \<noteq> Some langFromKey
              then e\<lparr>key := normalizedKey, lang := Some langFromKey\<rparr>
              else e)
      | None \<Rightarrow> e)"

definition normalizeI18nKeys :: "I18nEntry list \<Rightarrow> I18nEntry list" where
  "normalizeI18nKeys es = map normalizeEntry es"

definition postProcess :: "I18nEntry list \<Rightarrow> I18nEntry list" where
  \<comment> \<open>the two calls of \<open>scanLocaleFiles\<close> after the scan\<close>
  "postProcess es = normalizeI18nKeys (removeDuplicateEntries es)"

subsection \<open>Lookups\<close>

definition keyDistance :: "string \<Rightarrow> I18nEntry \<Rightarrow> nat" where
  \<comment> \<open>\<open>Math.abs(a.key.length - key.length)\<close>\<close>
  "keyDistance k e = nat \<bar>int (length (key e)) - int (length k)\<bar>"

definition stripTrailingDot :: "string \<Rightarrow> string" where
  \<comment> \<open>\<open>s.replace(/\.$/, '')\<close>\<close>
  "stripTrailingDot s = (if s \<noteq> [] \<and> last s = CHR ''.'' then butlast s else s)"

definition findByKey :: "I18nEntry list \<Rightarrow> string \<Rightarrow> I18nEntry list" where
  \<comment> \<open>\<open>Array.prototype.sort\<close> is stable, and so is \<open>sort_key\<close>\<close>
  "findByKey i18nEntries k =
     (let exactMatches = filter (\<lambda>entry. key entry = k) i18nEntries
      in if length exactMatches > 0 then exactMatches
         else if includesStr k ''#{''
         then (let baseKey = stripTrailingDot (beforeFirst k ''#{'')
               in if length baseKey > 0
                  then (let baseMatches = filter (\<lambda>entry. startsWith (key entry) baseKey) i18nEntries
                        in if length baseMatches > 0
                           then [hd (sort_key (keyDistance k) baseMatches)]
                           else [])
                  else [])
         else [])"

definition findExactKey :: "I18nEntry list \<Rightarrow> string \<Rightarrow> string option \<Rightarrow> I18nEntry option" where
  "findExactKey i18nEntries k preferredLang =
     (case (if truthy preferredLang
            then find (\<lambda>entry. key entry = k \<and> lang entry = preferredLang) i18nEntries
            else None) of
        Some preferredEntry \<Rightarrow> Some preferredEntry
      | None \<Rightarrow> find (\<lambda>entry. key entry = k) i18nEntries)"

section \<open>Reading one locale file\<close>

subsection \<open>Key lines\<close>

text \<open>
  Both line scanners match a line against \<open>/^(\s*)([^:]+):\s*(.*)$/\<close> (the position
  extractor writes the last group as \<open>(.*)?\<close> and reads an absent group as the empty
  string). Group 2 cannot cross a colon and must be followed by one, so it ends at the first
  colon of the line, and the text before that colon must not be empty. Group 1 is greedy: it
  takes the white space in front, but gives its last character back to group 2 when there is
  nothing else before the colon. After the colon, \<open>\s*\<close> takes all the white space; what
  remains is group 3, and the match fails when it holds a line terminator, which \<open>.\<close>
  does not match.
\<close>

definition matchKeyLine :: "string \<Rightarrow> (string \<times> string \<times> string) option" where
  "matchKeyLine line =
     (let front = takeWhile (\<lambda>c. c \<noteq> CHR '':'') line;
          fromColon = dropWhile (\<lambda>c. c \<noteq> CHR '':'') line
      in if fromColon = [] \<or> front = [] then None
         else (let blank = (\<forall>c \<in> set front. isWhiteSpace c);
                   indentStr = (if blank then butlast front else takeWhile isWhiteSpace front);
                   keyStr = (if blank then [last front] else dropWhile isWhiteSpace front);
                   valueStr = dropWhile isWhiteSpace (tl fromColon)
               in if \<exists>c \<in> set valueStr. isLineTerminator c then None
                  else Some (indentStr, keyStr, valueStr)))"

subsection \<open>Position extractor\<close>

type_synonym keyPositions = "(string \<times> nat) list"

function popStack :: "nat \<Rightarrow> string list \<Rightarrow> string list" where
  \<comment> \<open>the \<open>while\<close> loop of \<open>extractKeyPositions\<close>; the top of the stack is the last element\<close>
  "popStack indentLevel keyStack =
     (if length keyStack > 0 \<and> indentLevel \<le> length keyStack * 2
      then popStack indentLevel (butlast keyStack)
      else keyStack)"
  by pat_completeness auto
termination
  by (relation "measure (\<lambda>(i, s). length s)") auto

declare popStack.simps [simp del]

definition scanLine :: "string list \<Rightarrow> string \<Rightarrow> string list \<times> string option" where
  \<comment> \<open>one round of the loop of \<open>extractKeyPositions\<close>: the stack after the line, and the
      path the line records, if it records one\<close>
  "scanLine keyStack raw =
     (let line = trim raw
      in if line = [] \<or> startsWith line ''#'' then (keyStack, None)
         else (case matchKeyLine line of
                 None \<Rightarrow> (keyStack, None)
               | Some (indentStr, keyStr, valueStr) \<Rightarrow>
                   (let indentLevel = length indentStr;
                        k = trim keyStr;
                        v = trim valueStr;
                        keyStack' = popStack indentLevel keyStack @ [k]
                    in if v \<noteq> [] \<and> v \<noteq> ''~''
                       then (keyStack', Some (join ''.'' keyStack'))
                       else (keyStack', None))))"

definition extractLine ::
  "string list \<times> keyPositions \<Rightarrow> nat \<times> string \<Rightarrow> string list \<times> keyPositions" where
  "extractLine st il =
     (case st of (keyStack, positions) \<Rightarrow>
      case il of (i, raw) \<Rightarrow>
        (case scanLine keyStack raw of
           (keyStack', None) \<Rightarrow> (keyStack', positions)
         | (keyStack', Some fullKey) \<Rightarrow> (keyStack', mapSet fullKey (i + 1) positions)))"

definition extractKeyPositions :: "string \<Rightarrow> keyPositions" where
  "extractKeyPositions content =
     snd (foldl extractLine ([], []) (List.enumerate 0 (splitOn CHR 0x0A content)))"

definition findLineNumber :: "keyPositions \<Rightarrow> string \<Rightarrow> nat option" where
  "findLineNumber positions k =
     (if k = [] then None
      else (case map_of positions k of
              Some n \<Rightarrow> Some n
            | None \<Rightarrow>
                if includesStr k ''.''
                then (let keyParts = splitOn CHR ''.'' k;
                          lastTwoParts = join ''.'' (drop (length keyParts - 2) keyParts)
                      in case find (\<lambda>(posKey, posLine). endsWith posKey lastTwoParts) positions of
                           Some (posKey, posLine) \<Rightarrow> Some posLine
                         | None \<Rightarrow>
                             (let lastPart = last keyParts
                              in case find (\<lambda>(posKey, posLine). endsWith posKey lastPart) positions of
                                   Some (posKey, posLine) \<Rightarrow> Some posLine
                                 | None \<Rightarrow> None))
                else None))"

subsection \<open>Language codes\<close>

definition isLanguageCode :: "string \<Rightarrow> bool" where
  \<comment> \<open>\<open>/^[a-z]{2}$/i.test(key)\<close>\<close>
  "isLanguageCode k \<longleftrightarrow> (case k of [a, b] \<Rightarrow> isAsciiLetter a \<and> isAsciiLetter b | _ \<Rightarrow> False)"

definition fileNameCode :: "string \<Rightarrow> string option" where
  \<comment> \<open>group 1 of \<open>/^([a-z]{2})[\._]/i\<close>, the pattern of both readers of a file name\<close>
  "fileNameCode fileName =
     (case fileName of
        a # b # d # r \<Rightarrow>
          if isAsciiLetter a \<and> isAsciiLetter b \<and> (d = CHR ''.'' \<or> d = CHR ''_'')
          then Some [a, b] else None
      | _ \<Rightarrow> None)"

definition getLangFromFileName :: "string \<Rightarrow> string option" where
  "getLangFromFileName fileName = map_option toLowerCase (fileNameCode fileName)"

definition basename :: "string \<Rightarrow> string" where
  \<comment> \<open>\<open>path.basename\<close> on a POSIX path: the last segment, trailing slashes apart\<close>
  "basename p =
     rev (takeWhile (\<lambda>c. c \<noteq> CHR ''/'') (dropWhile (\<lambda>c. c = CHR ''/'') (rev p)))"

subsection \<open>Tree flattener\<close>

text \<open>
  What \<open>yaml.parse\<close> returns. A mapping lists its keys in the order in which \<open>for ... in\<close>
  visits them; a sequence is the mapping of its indices, which is how the loop sees an
  array. A number carries the text that \<open>String\<close> prints for it.
\<close>

datatype yaml =
  YStr string
| YNum string
| YBool bool
| YNull
| YMap "(string \<times> yaml) list"

definition isObject :: "yaml \<Rightarrow> bool" where
  \<comment> \<open>\<open>typeof v === 'object'\<close>, which holds of \<open>null\<close> too\<close>
  "isObject v \<longleftrightarrow> (case v of YMap _ \<Rightarrow> True | YNull \<Rightarrow> True | _ \<Rightarrow> False)"

definition isLanguageRoot :: "string \<times> yaml \<Rightarrow> bool" where
  "isLanguageRoot kv \<longleftrightarrow> isLanguageCode (fst kv) \<and> isObject (snd kv)"

definition yamlTruthy :: "yaml \<Rightarrow> bool" where
  "yamlTruthy v \<longleftrightarrow>
     (case v of
        YStr s \<Rightarrow> s \<noteq> []
      | YNum s \<Rightarrow> s \<noteq> ''0'' \<and> s \<noteq> ''NaN''
      | YBool b \<Rightarrow> b
      | YNull \<Rightarrow> False
      | YMap _ \<Rightarrow> True)"

fun dropRepeated :: "string list \<Rightarrow> string list" where
  \<comment> \<open>the loop of \<open>normalizeDuplicateKeyParts\<close>: a part equal to the part before it is left out\<close>
  "dropRepeated [] = []"
| "dropRepeated [p] = [p]"
| "dropRepeated (p # q # ps) = (if q = p then dropRepeated (q # ps) else p # dropRepeated (q # ps))"

definition normalizeDuplicateKeyParts :: "string \<Rightarrow> string" where
  "normalizeDuplicateKeyParts k = join ''.'' (dropRepeated (splitOn CHR ''.'' k))"

definition newKeyOf :: "string \<Rightarrow> string \<Rightarrow> string" where
  \<comment> \<open>\<open>prefix ? `${prefix}.${key}` : key\<close>\<close>
  "newKeyOf prefix k = (if prefix \<noteq> [] then prefix @ ''.'' @ k else k)"

definition scalarText :: "yaml \<Rightarrow> string" where
  \<comment> \<open>\<open>String(value)\<close> of a string, a number or a boolean\<close>
  "scalarText v =
     (case v of
        YStr s \<Rightarrow> s
      | YNum s \<Rightarrow> s
      | YBool b \<Rightarrow> (if b then ''true'' else ''false'')
      | _ \<Rightarrow> [])"

lemma size_filter_pairs [termination_simp]:
  "size_list (size_prod f g) (filter P xs) \<le> size_list (size_prod f g) xs"
  by (induction xs) auto

function (sequential) flattenYaml ::
    "yaml \<Rightarrow> string \<Rightarrow> string \<Rightarrow> string option \<Rightarrow> keyPositions \<Rightarrow> I18nEntry list"
  and languageRoots :: "(string \<times> yaml) list \<Rightarrow> string \<Rightarrow> keyPositions \<Rightarrow> I18nEntry list"
  and remainingKeys ::
    "(string \<times> yaml) list \<Rightarrow> string \<Rightarrow> string \<Rightarrow> string option \<Rightarrow> keyPositions \<Rightarrow> I18nEntry list"
where
  "flattenYaml (YMap obj) prefix filePath lang0 positions =
     (let lang = (if \<not> truthy lang0 then getLangFromFileName (basename filePath) else lang0)
      in if prefix = []
         then languageRoots obj filePath positions
              @ remainingKeys (filter (\<lambda>kv. \<not> isLanguageRoot kv) obj) prefix filePath lang positions
         else remainingKeys obj prefix filePath lang positions)"
| "flattenYaml _ prefix filePath lang0 positions = []"
| "languageRoots [] filePath positions = []"
| "languageRoots ((k, v) # obj) filePath positions =
     (if isLanguageRoot (k, v)
      then flattenYaml v [] filePath (Some (toLowerCase k)) positions
      else [])
     @ languageRoots obj filePath positions"
| "remainingKeys [] prefix filePath lang1 positions = []"
| "remainingKeys ((k, v) # obj) prefix filePath lang1 positions =
     (let newKey = newKeyOf prefix k;
          normalizedKey = normalizeDuplicateKeyParts newKey
      in (case v of
            YMap m \<Rightarrow> flattenYaml v normalizedKey filePath lang1 positions
          | YNull \<Rightarrow> []
          | _ \<Rightarrow>
              if length normalizedKey > 200 then []
              else [\<lparr>key = normalizedKey, val = scalarText v, sourceFile = filePath,
                     lang = lang1, fileLine = findLineNumber positions normalizedKey\<rparr>]))
     @ remainingKeys obj prefix filePath lang1 positions"
  by pat_completeness auto
termination
proof (relation "measure (\<lambda>x. case x of
         Inl (v, _) \<Rightarrow> 2 * size v + 1
       | Inr (Inl (obj, _)) \<Rightarrow> 2 * size_list (size_prod (\<lambda>_. 0) size) obj
       | Inr (Inr (obj, _)) \<Rightarrow> 2 * size_list (size_prod (\<lambda>_. 0) size) obj)", goal_cases)
  case (3 obj)
  have "size_list (size_prod (\<lambda>_. 0) size) (filter (\<lambda>kv. \<not> isLanguageRoot kv) obj)
          \<le> size_list (size_prod (\<lambda>_. 0) size) obj"
    by (rule size_filter_pairs)
  then show ?case by simp
qed auto

subsection \<open>Fallback line parser\<close>

definition processValue :: "string \<Rightarrow> string option" where
  \<comment> \<open>\<open>null\<close> is \<open>None\<close>\<close>
  "processValue valueStr0 =
     (let valueStr = trim valueStr0
      in if (startsWith valueStr ''\"'' \<and> endsWith valueStr ''\"'')
            \<or> (startsWith valueStr [CHR 0x27] \<and> endsWith valueStr [CHR 0x27])
         then Some (substring valueStr 1 (length valueStr - 1))
         else if valueStr \<noteq> [] then Some valueStr
         else None)"

definition partialLine ::
  "string \<Rightarrow> string option \<Rightarrow> string list \<times> nat \<times> I18nEntry list \<Rightarrow> nat \<times> string
     \<Rightarrow> string list \<times> nat \<times> I18nEntry list" where
  \<comment> \<open>one round of the loop of \<open>attemptPartialParsing\<close>; the state is \<open>currentSections\<close>,
      \<open>currentIndent\<close> and the entries pushed so far\<close>
  "partialLine filePath lang1 st il =
     (case st of (currentSections, currentIndent, pushed) \<Rightarrow>
      case il of (i, raw) \<Rightarrow>
        (let line = trimRight raw
         in if trim line = [] \<or> startsWith (trim line) ''#'' then st
            else (case matchKeyLine line of
                    None \<Rightarrow> st
                  | Some (indentStr, keyStr, valueStr) \<Rightarrow>
                      (let indent = length indentStr;
                           sections =
                             (if indent \<le> currentIndent
                              then (let diff = (currentIndent - indent) div 2 + 1
                                    in take (length currentSections - diff) currentSections)
                              else currentSections);
                           cleanKey = trim keyStr
                       in if trim valueStr = [] \<or> trim valueStr = ''~''
                          then (sections @ [cleanKey], indent, pushed)
                          else (case processValue (trim valueStr) of
                                  None \<Rightarrow> (sections, indent, pushed)
                                | Some processedValue \<Rightarrow>
                                    (sections, indent,
                                     pushed @ [\<lparr>key = join ''.'' (sections @ [cleanKey]),
                                                val = processedValue, sourceFile = filePath,
                                                lang = lang1, fileLine = Some (i + 1)\<rparr>]))))))"

definition attemptPartialParsing :: "string \<Rightarrow> string \<Rightarrow> string option \<Rightarrow> I18nEntry list" where
  "attemptPartialParsing source filePath lang1 =
     snd (snd (foldl (partialLine filePath lang1) ([], 0, [])
                 (List.enumerate 0 (splitOn CHR 0x0A source))))"

section \<open>The scan pass\<close>

text \<open>
  The walk over the directories is left out: a scan receives the locale files in the order
  of the walk, each with the name of its directory entry, its joined path, its text, and
  what \<open>yaml.parse\<close> makes of the text (\<open>None\<close> when the parser throws).
\<close>

record localeFile =
  entryName :: string
  entryPath :: string
  content :: string
  parsed :: "yaml option"

definition parseYamlFile :: "string \<Rightarrow> string option \<Rightarrow> string \<Rightarrow> yaml option \<Rightarrow> I18nEntry list" where
  "parseYamlFile path lang0 source tree =
     (let lang = (if \<not> truthy lang0 then getLangFromFileName (basename path) else lang0)
      in case tree of
           Some t \<Rightarrow>
             if yamlTruthy t then flattenYaml t [] path lang (extractKeyPositions source) else []
         | None \<Rightarrow> attemptPartialParsing source path lang)"

definition scanFile :: "localeFile \<Rightarrow> I18nEntry list" where
  \<comment> \<open>the branch of \<open>scanDirectory\<close> for a \<open>.yml\<close> or \<open>.yaml\<close> file\<close>
  "scanFile f =
     (let lang = (case fileNameCode (entryName f) of
                    Some code \<Rightarrow> Some code
                  | None \<Rightarrow> getLangFromFileName (entryName f))
      in parseYamlFile (entryPath f) lang (content f) (parsed f))"

definition scanLocaleFiles :: "localeFile list \<Rightarrow> I18nEntry list" where
  "scanLocaleFiles files = postProcess (concat (map scanFile files))"

section \<open>Definition provider\<close>

record Location =
  uri :: string
  line :: nat
  character :: nat

definition createLocation :: "I18nEntry \<Rightarrow> Location" where
  \<comment> \<open>\<open>Math.max(0, entry.fileLine - 1)\<close>, and line 0 for an entry without a line\<close>
  "createLocation entry =
     \<lparr>uri = sourceFile entry,
      line = (case fileLine entry of Some n \<Rightarrow> n - 1 | None \<Rightarrow> 0),
      character = 0\<rparr>"

definition getLanguageCodes :: "I18nEntry list \<Rightarrow> string list" where
  \<comment> \<open>the codes of the index: \<open>ko\<close>, \<open>en\<close>, \<open>ja\<close> first, then the others in the order of
      \<open>Array.prototype.sort\<close>, which compares strings code unit by code unit\<close>
  "getLanguageCodes entries =
     (let langSet = remdups (concat (map (\<lambda>entry. case lang entry of
                                                     Some l \<Rightarrow> if l \<noteq> [] then [l] else []
                                                   | None \<Rightarrow> [])
                                       entries));
          priorityLangs = [''ko'', ''en'', ''ja''];
          result = filter (\<lambda>l. l \<in> set langSet) priorityLangs
      in result @ sort (filter (\<lambda>l. l \<notin> set result) langSet))"

definition hasPosition :: "I18nEntry \<Rightarrow> bool" where
  \<comment> \<open>\<open>entry.file && entry.fileLine !== undefined\<close>\<close>
  "hasPosition entry \<longleftrightarrow> sourceFile entry \<noteq> [] \<and> fileLine entry \<noteq> None"

definition alternativeKeyLocations :: "string list \<Rightarrow> I18nEntry list \<Rightarrow> string \<Rightarrow> Location list" where
  \<comment> \<open>the body of \<open>findAlternativeKeyLocations\<close> once \<open>languageCodes\<close> is known\<close>
  "alternativeKeyLocations languageCodes entries k =
     (let langKeyMatch = keyMatch k;
          alternativeKey =
            (case langKeyMatch of
               Some (code, rest) \<Rightarrow>
                 if toLowerCase code \<in> set languageCodes then Some rest
                 else map_option (\<lambda>langCode. langCode @ ''.'' @ k)
                        (find (\<lambda>langCode.
                                 filter (\<lambda>entry. key entry = langCode @ ''.'' @ k \<and> hasPosition entry)
                                   entries \<noteq> [])
                           languageCodes)
             | None \<Rightarrow>
                 map_option (\<lambda>langCode. langCode @ ''.'' @ k)
                   (find (\<lambda>langCode.
                            filter (\<lambda>entry. key entry = langCode @ ''.'' @ k \<and> hasPosition entry)
                              entries \<noteq> [])
                      languageCodes))
      in if truthy alternativeKey
         then (let altMatches =
                     filter (\<lambda>entry. Some (key entry) = alternativeKey \<and> hasPosition entry) entries
               in if length altMatches > 0 then map createLocation altMatches else [])
         else [])"

definition findAlternativeKeyLocations :: "I18nEntry list \<Rightarrow> string \<Rightarrow> Location list" where
  \<comment> \<open>the caller passes the entries of the scanner, from which the codes are collected too\<close>
  "findAlternativeKeyLocations entries k =
     alternativeKeyLocations (getLanguageCodes entries) entries k"

section \<open>Properties\<close>

subsection \<open>Auxiliary facts\<close>

text \<open>The string operations of the model, stated by concatenation.\<close>

lemma startsWith_iff: "startsWith s p \<longleftrightarrow> (\<exists>b. s = p @ b)"
proof
  assume "startsWith s p"
  then have "s = p @ drop (length p) s"
    by (metis append_take_drop_id startsWith_def)
  then show "\<exists>b. s = p @ b" ..
next
  assume "\<exists>b. s = p @ b"
  then show "startsWith s p" by (auto simp: startsWith_def)
qed

lemma endsWith_iff: "endsWith s p \<longleftrightarrow> (\<exists>a. s = a @ p)"
proof
  assume "endsWith s p"
  then have "s = take (length s - length p) s @ p"
    by (metis append_take_drop_id endsWith_def)
  then show "\<exists>a. s = a @ p" ..
next
  assume "\<exists>a. s = a @ p"
  then show "endsWith s p" by (auto simp: endsWith_def)
qed

lemma includesStr_iff: "includesStr s p \<longleftrightarrow> (\<exists>a b. s = a @ p @ b)"
proof (induction s)
  case Nil
  then show ?case by auto
next
  case (Cons c cs)
  show ?case
  proof
    assume "includesStr (c # cs) p"
    then consider "startsWith (c # cs) p" | "includesStr cs p" by auto
    then show "\<exists>a b. c # cs = a @ p @ b"
    proof cases
      case 1
      then obtain b where "c # cs = p @ b" unfolding startsWith_iff ..
      then have "c # cs = [] @ p @ b" by simp
      then show ?thesis by blast
    next
      case 2
      then obtain a b where "cs = a @ p @ b" using Cons.IH by blast
      then have "c # cs = (c # a) @ p @ b" by simp
      then show ?thesis by blast
    qed
  next
    assume "\<exists>a b. c # cs = a @ p @ b"
    then obtain a b where ab: "c # cs = a @ p @ b" by blast
    show "includesStr (c # cs) p"
    proof (cases a)
      case Nil
      with ab have "startsWith (c # cs) p" unfolding startsWith_iff by auto
      then show ?thesis by simp
    next
      case (Cons x a')
      with ab have "cs = a' @ p @ b" by simp
      then have "includesStr cs p" using Cons.IH by blast
      then show ?thesis by simp
    qed
  qed
qed

lemma beforeFirst_split:
  "includesStr s p \<Longrightarrow> \<exists>b. s = beforeFirst s p @ p @ b"
proof (induction s)
  case Nil
  then show ?case by simp
next
  case (Cons c cs)
  show ?case
  proof (cases "startsWith (c # cs) p")
    case True
    then obtain b where b: "c # cs = p @ b" unfolding startsWith_iff ..
    have "beforeFirst (c # cs) p = []" using True by simp
    then have "c # cs = beforeFirst (c # cs) p @ p @ b" using b by simp
    then show ?thesis ..
  next
    case False
    with Cons.prems have "includesStr cs p" by simp
    from Cons.IH[OF this] obtain b where "cs = beforeFirst cs p @ p @ b" ..
    then have "c # cs = beforeFirst (c # cs) p @ p @ b" using False by simp
    then show ?thesis ..
  qed
qed

lemma beforeFirst_none: "\<not> includesStr s p \<Longrightarrow> beforeFirst s p = s"
  by (induction s) auto

lemma splitOn_not_Nil: "splitOn c s \<noteq> []"
  by (induction s) (auto split: list.splits)

lemma splitOn_free: "p \<in> set (splitOn c s) \<Longrightarrow> c \<notin> set p"
  by (induction s arbitrary: p) (auto split: list.splits if_splits)

lemma splitOn_free_part: "c \<notin> set p \<Longrightarrow> splitOn c p = [p]"
  by (induction p) auto

lemma splitOn_append: "c \<notin> set p \<Longrightarrow> splitOn c (p @ c # s) = p # splitOn c s"
  by (induction p) (auto simp: splitOn_not_Nil split: list.splits)

lemma splitOn_join:
  "ps \<noteq> [] \<Longrightarrow> \<forall>p \<in> set ps. c \<notin> set p \<Longrightarrow> splitOn c (join [c] ps) = ps"
proof (induction ps rule: induct_list012)
  case (3 p q ps)
  then have "splitOn c (join [c] (q # ps)) = q # ps" by simp
  moreover have "join [c] (p # q # ps) = p @ c # join [c] (q # ps)" by simp
  moreover have "c \<notin> set p" using 3 by simp
  ultimately show ?case by (simp add: splitOn_append del: join.simps)
qed (auto simp: splitOn_free_part)

lemma dropRepeated_remdups_adj: "dropRepeated ps = remdups_adj ps"
  by (induction ps rule: dropRepeated.induct) auto

lemma normalizeDuplicateKeyParts_parts:
  "splitOn CHR ''.'' (normalizeDuplicateKeyParts k) = remdups_adj (splitOn CHR ''.'' k)"
proof -
  let ?ps = "remdups_adj (splitOn CHR ''.'' k)"
  have "?ps \<noteq> []" by (simp add: splitOn_not_Nil)
  moreover have "\<forall>p \<in> set ?ps. CHR ''.'' \<notin> set p" by (auto dest: splitOn_free)
  ultimately show ?thesis
    unfolding normalizeDuplicateKeyParts_def dropRepeated_remdups_adj
    by (rule splitOn_join)
qed

lemma normalizeDuplicateKeyParts_distinct_adj:
  "distinct_adj (splitOn CHR ''.'' (normalizeDuplicateKeyParts k))"
  by (simp add: normalizeDuplicateKeyParts_parts)

lemma trimRight_prefix: "\<exists>w. s = trimRight s @ w"
proof -
  have "s = trimRight s @ rev (takeWhile isWhiteSpace (rev s))"
    unfolding trimRight_def rev_append[symmetric] takeWhile_dropWhile_id by simp
  then show ?thesis ..
qed

lemma trim_hd: "trim s \<noteq> [] \<Longrightarrow> \<not> isWhiteSpace (hd (trim s))"
proof -
  assume ne: "trim s \<noteq> []"
  obtain w where w: "trimLeft s = trim s @ w"
    using trimRight_prefix[of "trimLeft s"] by (auto simp: trim_def)
  with ne have "hd (trim s) = hd (trimLeft s)" and "trimLeft s \<noteq> []" by auto
  then show ?thesis
    using hd_dropWhile[of isWhiteSpace s] by (simp add: trimLeft_def)
qed

lemma matchKeyLine_trim_indent:
  assumes "matchKeyLine (trim raw) = Some (indentStr, keyStr, valueStr)"
  shows "indentStr = []"
proof -
  let ?line = "trim raw"
  let ?front = "takeWhile (\<lambda>c. c \<noteq> CHR '':'') ?line"
  from assms have front: "?front \<noteq> []"
    by (auto simp: matchKeyLine_def Let_def split: if_splits)
  then have ne: "?line \<noteq> []" by auto
  then have nws: "\<not> isWhiteSpace (hd ?line)" by (rule trim_hd)
  from front ne have hdf: "hd ?front = hd ?line" by (cases ?line) (auto split: if_splits)
  with nws front have "\<not> (\<forall>c \<in> set ?front. isWhiteSpace c)"
    by (metis hd_in_set)
  moreover from nws hdf front have "takeWhile isWhiteSpace ?front = []"
    by (cases ?front) auto
  ultimately show ?thesis
    using assms by (auto simp: matchKeyLine_def Let_def split: if_splits)
qed

lemma popStack_zero: "popStack 0 keyStack = []"
proof (induction "0::nat" keyStack rule: popStack.induct)
  case (1 keyStack)
  then show ?case by (subst popStack.simps) auto
qed

lemma scanLine_records:
  assumes "scanLine keyStack raw = (keyStack', Some path)"
  shows "keyStack' = [path] \<and> (\<exists>keyStr valueStr. matchKeyLine (trim raw) = Some ([], keyStr, valueStr) \<and> path = trim keyStr)"
  using assms matchKeyLine_trim_indent[of raw]
  by (auto simp: scanLine_def Let_def popStack_zero split: if_splits option.splits prod.splits)

lemma scanLine_stack_free: "snd (scanLine keyStack raw) = snd (scanLine [] raw)"
  using matchKeyLine_trim_indent[of raw]
  by (auto simp: scanLine_def Let_def popStack_zero split: if_splits option.splits prod.splits)

lemma set_mapSet: "set (mapSet k v m) \<subseteq> insert (k, v) (set m)"
  by (induction m) (auto split: if_splits)

lemma foldl_extractLine:
  "(p, n) \<in> set (snd (foldl extractLine (ks, kp) (List.enumerate b ls))) \<Longrightarrow>
     (p, n) \<in> set kp \<or> (\<exists>j < length ls. n = b + j + 1 \<and> snd (scanLine [] (ls ! j)) = Some p)"
proof (induction ls arbitrary: ks kp b)
  case Nil
  then show ?case by simp
next
  case (Cons x xs)
  obtain ks' r where sl: "scanLine ks x = (ks', r)" by (cases "scanLine ks x")
  define kp' where "kp' = (case r of None \<Rightarrow> kp | Some fullKey \<Rightarrow> mapSet fullKey (b + 1) kp)"
  have step: "extractLine (ks, kp) (b, x) = (ks', kp')"
    by (simp add: extractLine_def sl kp'_def split: option.splits)
  from Cons.prems have "(p, n) \<in> set (snd (foldl extractLine (ks', kp') (List.enumerate (Suc b) xs)))"
    by (simp add: step)
  from Cons.IH[OF this] consider "(p, n) \<in> set kp'"
    | j where "j < length xs" "n = Suc b + j + 1" "snd (scanLine [] (xs ! j)) = Some p"
    by blast
  then show ?case
  proof cases
    case 1
    show ?thesis
    proof (cases r)
      case None
      with 1 show ?thesis by (simp add: kp'_def)
    next
      case (Some fullKey)
      with 1 have "(p, n) = (fullKey, b + 1) \<or> (p, n) \<in> set kp"
        using set_mapSet[of fullKey "b + 1" kp] by (auto simp: kp'_def)
      then show ?thesis
      proof
        assume "(p, n) = (fullKey, b + 1)"
        moreover have "snd (scanLine [] x) = Some fullKey"
          using scanLine_stack_free[of ks x] sl Some by simp
        ultimately show ?thesis by (intro disjI2 exI[of _ 0]) simp
      qed simp
    qed
  next
    case 2
    then show ?thesis by (intro disjI2 exI[of _ "Suc j"]) simp
  qed
qed

lemma hd_insort_key:
  "hd (insort_key f x ys) = (if ys = [] \<or> f x \<le> f (hd ys) then x else hd ys)"
  by (cases ys) auto

lemma sort_key_Cons: "sort_key f (x # xs) = insort_key f x (sort_key f xs)"
  by (simp add: sort_key_def)

lemma sort_key_Nil_iff: "sort_key f xs = [] \<longleftrightarrow> xs = []"
  by (metis length_sort list.size(3) length_0_conv)

lemma hd_sort_key_first_least:
  "xs \<noteq> [] \<Longrightarrow>
     \<exists>ys zs. xs = ys @ hd (sort_key f xs) # zs
       \<and> (\<forall>y \<in> set ys. f (hd (sort_key f xs)) < f y)
       \<and> (\<forall>z \<in> set zs. f (hd (sort_key f xs)) \<le> f z)"
proof (induction xs)
  case Nil
  then show ?case by simp
next
  case (Cons x xs)
  show ?case
  proof (cases "xs = []")
    case True
    then show ?thesis by (intro exI[of _ "[]"]) simp
  next
    case False
    let ?m = "hd (sort_key f xs)"
    from Cons.IH[OF False] obtain ys zs where
      dec: "xs = ys @ ?m # zs" and lt: "\<forall>y \<in> set ys. f ?m < f y" and le: "\<forall>z \<in> set zs. f ?m \<le> f z"
      by blast
    have hd: "hd (sort_key f (x # xs)) = (if f x \<le> f ?m then x else ?m)"
      using False by (simp add: sort_key_Cons hd_insort_key sort_key_Nil_iff)
    show ?thesis
    proof (cases "f x \<le> f ?m")
      case True
      have "\<forall>z \<in> set xs. f x \<le> f z"
      proof
        fix z assume "z \<in> set xs"
        then have "z \<in> set ys \<or> z = ?m \<or> z \<in> set zs" by (subst (asm) dec) auto
        then show "f x \<le> f z" using True lt le by (auto intro: order_trans less_imp_le)
      qed
      with True hd show ?thesis by (intro exI[of _ "[]"] exI[of _ xs]) simp
    next
      case False
      with hd have h: "hd (sort_key f (x # xs)) = ?m" by simp
      have "x # xs = (x # ys) @ ?m # zs" using dec by simp
      moreover have "\<forall>y \<in> set (x # ys). f ?m < f y" using lt False by auto
      ultimately show ?thesis unfolding h using le by blast
    qed
  qed
qed

lemma filter_decompose:
  "filter P xs = ys @ x # zs \<Longrightarrow>
     \<exists>us vs. xs = us @ x # vs \<and> filter P us = ys \<and> filter P vs = zs \<and> P x"
proof (induction xs arbitrary: ys)
  case Nil
  then show ?case by simp
next
  case (Cons a xs)
  show ?case
  proof (cases "P a")
    case False
    with Cons.prems have "filter P xs = ys @ x # zs" by simp
    from Cons.IH[OF this] obtain us vs
      where "xs = us @ x # vs" "filter P us = ys" "filter P vs = zs" "P x" by blast
    with False show ?thesis by (intro exI[of _ "a # us"] exI[of _ vs]) simp
  next
    case True
    with Cons.prems have eq: "a # filter P xs = ys @ x # zs" by simp
    show ?thesis
    proof (cases ys)
      case Nil
      with eq True show ?thesis by (intro exI[of _ "[]"] exI[of _ xs]) simp
    next
      case (Cons y ys')
      with eq have "a = y" "filter P xs = ys' @ x # zs" by simp_all
      from Cons.IH[OF this(2)] obtain us vs
        where "xs = us @ x # vs" "filter P us = ys'" "filter P vs = zs" "P x" by blast
      with True Cons \<open>a = y\<close> show ?thesis by (intro exI[of _ "a # us"] exI[of _ vs]) simp
    qed
  qed
qed


subsection \<open>Key resolver\<close>

text \<open>
  C7. \<open>findByKey\<close> returns the entries whose key is the lookup key when there are any.
  Otherwise, when the key contains \<open>#{\<close>, the text before the marker without its trailing
  dot is not empty and some entry's key starts with it, the result is one entry \<open>e\<close> of the
  index: its key starts with that text; for every matching entry met earlier in the index,
  the absolute difference between the length of its key and the length of the lookup key
  is strictly greater than that difference for \<open>e\<close>; for every matching entry met later it
  is at least as great. So \<open>e\<close> is closest in key length, and the first such in the order
  of the index. In every other case the result is the empty list. The function is total:
  no case is left without a result.
\<close>

theorem findByKey_result:
  "(filter (\<lambda>e. key e = k) entries \<noteq> [] \<longrightarrow>
      findByKey entries k = filter (\<lambda>e. key e = k) entries)
   \<and> (filter (\<lambda>e. key e = k) entries = [] \<and> includesStr k ''#{''
        \<and> stripTrailingDot (beforeFirst k ''#{'') \<noteq> []
        \<and> (\<exists>e \<in> set entries. startsWith (key e) (stripTrailingDot (beforeFirst k ''#{''))) \<longrightarrow>
      (\<exists>earlier e later.
         entries = earlier @ e # later \<and> findByKey entries k = [e]
         \<and> startsWith (key e) (stripTrailingDot (beforeFirst k ''#{''))
         \<and> (\<forall>e' \<in> set earlier. startsWith (key e') (stripTrailingDot (beforeFirst k ''#{''))
               \<longrightarrow> \<bar>int (length (key e)) - int (length k)\<bar>
                     < \<bar>int (length (key e')) - int (length k)\<bar>)
         \<and> (\<forall>e' \<in> set later. startsWith (key e') (stripTrailingDot (beforeFirst k ''#{''))
               \<longrightarrow> \<bar>int (length (key e)) - int (length k)\<bar>
                     \<le> \<bar>int (length (key e')) - int (length k)\<bar>)))
   \<and> (filter (\<lambda>e. key e = k) entries = []
        \<and> \<not> (includesStr k ''#{'' \<and> stripTrailingDot (beforeFirst k ''#{'') \<noteq> []
               \<and> (\<exists>e \<in> set entries. startsWith (key e) (stripTrailingDot (beforeFirst k ''#{'')))) \<longrightarrow>
      findByKey entries k = [])"
proof (intro conjI impI)
  assume "filter (\<lambda>e. key e = k) entries \<noteq> []"
  then show "findByKey entries k = filter (\<lambda>e. key e = k) entries"
    by (simp add: findByKey_def)
next
  let ?base = "stripTrailingDot (beforeFirst k ''#{'')"
  let ?P = "\<lambda>e. startsWith (key e) ?base"
  let ?d = "\<lambda>e. \<bar>int (length (key e)) - int (length k)\<bar>"
  let ?ms = "filter ?P entries"
  let ?m = "hd (sort_key (keyDistance k) ?ms)"
  assume a: "filter (\<lambda>e. key e = k) entries = [] \<and> includesStr k ''#{'' \<and> ?base \<noteq> []
        \<and> (\<exists>e \<in> set entries. ?P e)"
  then have ne: "?ms \<noteq> []" by (simp add: filter_empty_conv)
  with a have res: "findByKey entries k = [?m]"
    by (simp add: findByKey_def Let_def)
  have less: "keyDistance k x < keyDistance k y \<longleftrightarrow> ?d x < ?d y" for x y
    unfolding keyDistance_def by linarith
  have leq: "keyDistance k x \<le> keyDistance k y \<longleftrightarrow> ?d x \<le> ?d y" for x y
    unfolding keyDistance_def by linarith
  from hd_sort_key_first_least[OF ne, of "keyDistance k"] obtain ys zs where
    dec: "?ms = ys @ ?m # zs"
    and lt: "\<forall>y \<in> set ys. ?d ?m < ?d y"
    and le: "\<forall>z \<in> set zs. ?d ?m \<le> ?d z"
    unfolding less leq by blast
  from filter_decompose[OF dec] obtain us vs where
    uv: "entries = us @ ?m # vs" "filter ?P us = ys" "filter ?P vs = zs" "?P ?m" by blast
  have "\<forall>e' \<in> set us. ?P e' \<longrightarrow> ?d ?m < ?d e'"
    using lt uv(2) by auto
  moreover have "\<forall>e' \<in> set vs. ?P e' \<longrightarrow> ?d ?m \<le> ?d e'"
    using le uv(3) by auto
  ultimately show "\<exists>earlier e later.
         entries = earlier @ e # later \<and> findByKey entries k = [e] \<and> ?P e
         \<and> (\<forall>e' \<in> set earlier. ?P e' \<longrightarrow> ?d e < ?d e')
         \<and> (\<forall>e' \<in> set later. ?P e' \<longrightarrow> ?d e \<le> ?d e')"
    using uv(1,4) res by blast
next
  assume "filter (\<lambda>e. key e = k) entries = []
        \<and> \<not> (includesStr k ''#{'' \<and> stripTrailingDot (beforeFirst k ''#{'') \<noteq> []
               \<and> (\<exists>e \<in> set entries. startsWith (key e) (stripTrailingDot (beforeFirst k ''#{''))))"
  then show "findByKey entries k = []"
    by (auto simp: findByKey_def Let_def filter_empty_conv)
qed

theorem findByKey_result_witness:
  "findByKey
     [\<lparr>key = ''a.bcdefgh'', val = ''far'', sourceFile = ''/w/en.yml'', lang = Some ''en'',
        fileLine = Some 1\<rparr>,
      \<lparr>key = ''a.bcd'', val = ''near'', sourceFile = ''/w/en.yml'', lang = Some ''en'',
        fileLine = Some 2\<rparr>] ''a.bcd''
     = [\<lparr>key = ''a.bcd'', val = ''near'', sourceFile = ''/w/en.yml'', lang = Some ''en'',
        fileLine = Some 2\<rparr>]
   \<and> stripTrailingDot (beforeFirst ''a.#{x}'' ''#{'') = ''a''
   \<and> \<bar>int (length ''a.bcdefgh'') - int (length ''a.#{x}'')\<bar> = 3
   \<and> \<bar>int (length ''a.bcd'') - int (length ''a.#{x}'')\<bar> = 1
   \<and> findByKey
       [\<lparr>key = ''a.bcdefgh'', val = ''far'', sourceFile = ''/w/en.yml'', lang = Some ''en'',
        fileLine = Some 1\<rparr>,
        \<lparr>key = ''a.bcd'', val = ''near'', sourceFile = ''/w/en.yml'', lang = Some ''en'',
        fileLine = Some 2\<rparr>] ''a.#{x}''
     = [\<lparr>key = ''a.bcd'', val = ''near'', sourceFile = ''/w/en.yml'', lang = Some ''en'',
        fileLine = Some 2\<rparr>]
   \<and> \<bar>int (length ''user.greeting.formal'') - int (length ''user.greeting.#{type}'')\<bar>
     = \<bar>int (length ''user.greeting.casual'') - int (length ''user.greeting.#{type}'')\<bar>
   \<and> findByKey
       [\<lparr>key = ''user.greeting.formal'', val = ''f'', sourceFile = ''/w/en.yml'',
        lang = Some ''en'', fileLine = Some 3\<rparr>,
        \<lparr>key = ''user.greeting.casual'', val = ''c'', sourceFile = ''/w/en.yml'',
        lang = Some ''en'', fileLine = Some 4\<rparr>] ''user.greeting.#{type}''
     = [\<lparr>key = ''user.greeting.formal'', val = ''f'', sourceFile = ''/w/en.yml'',
        lang = Some ''en'', fileLine = Some 3\<rparr>]
   \<and> findByKey
       [\<lparr>key = ''a.bcdefgh'', val = ''far'', sourceFile = ''/w/en.yml'', lang = Some ''en'',
        fileLine = Some 1\<rparr>,
        \<lparr>key = ''a.bcd'', val = ''near'', sourceFile = ''/w/en.yml'', lang = Some ''en'',
        fileLine = Some 2\<rparr>] ''z.#{x}''
     = []"
proof -
  let ?long = "\<lparr>key = ''a.bcdefgh'', val = ''far'', sourceFile = ''/w/en.yml'', lang = Some ''en'',
        fileLine = Some 1\<rparr>"
  let ?short = "\<lparr>key = ''a.bcd'', val = ''near'', sourceFile = ''/w/en.yml'', lang = Some ''en'',
        fileLine = Some 2\<rparr>"
  let ?formal = "\<lparr>key = ''user.greeting.formal'', val = ''f'', sourceFile = ''/w/en.yml'',
        lang = Some ''en'', fileLine = Some 3\<rparr>"
  let ?casual = "\<lparr>key = ''user.greeting.casual'', val = ''c'', sourceFile = ''/w/en.yml'',
        lang = Some ''en'', fileLine = Some 4\<rparr>"
  have two: "(earlier = [] \<and> e = x \<and> later = [y]) \<or> (earlier = [x] \<and> e = y \<and> later = [])"
    if "[x, y] = earlier @ e # later" for x y e :: I18nEntry and earlier later
    using that by (auto simp: Cons_eq_append_conv)
  \<comment> \<open>an exact match\<close>
  have "filter (\<lambda>e. key e = ''a.bcd'') [?long, ?short] \<noteq> []"
    by simp
  with findByKey_result[where entries = "[?long, ?short]" and k = "''a.bcd''"]
  have "findByKey [?long, ?short] ''a.bcd'' = filter (\<lambda>e. key e = ''a.bcd'') [?long, ?short]"
    by blast
  then have r1: "findByKey [?long, ?short] ''a.bcd'' = [?short]"
    by simp
  \<comment> \<open>a dynamic key whose closest match is the second entry\<close>
  have base: "stripTrailingDot (beforeFirst ''a.#{x}'' ''#{'') = ''a''"
    by (simp add: stripTrailingDot_def startsWith_def)
  have "filter (\<lambda>e. key e = ''a.#{x}'') [?long, ?short] = [] \<and> includesStr ''a.#{x}'' ''#{''
      \<and> stripTrailingDot (beforeFirst ''a.#{x}'' ''#{'') \<noteq> []
      \<and> (\<exists>e \<in> set [?long, ?short].
            startsWith (key e) (stripTrailingDot (beforeFirst ''a.#{x}'' ''#{'')))"
    unfolding base by (simp add: startsWith_def)
  with findByKey_result[where entries = "[?long, ?short]" and k = "''a.#{x}''"]
  obtain earlier e later where
    d: "[?long, ?short] = earlier @ e # later" "findByKey [?long, ?short] ''a.#{x}'' = [e]"
    and dl: "\<forall>e' \<in> set later. startsWith (key e') ''a''
          \<longrightarrow> \<bar>int (length (key e)) - int (length ''a.#{x}'')\<bar>
                \<le> \<bar>int (length (key e')) - int (length ''a.#{x}'')\<bar>"
    unfolding base by blast
  from two[OF d(1)] dl have "e = ?short"
    by (auto simp: startsWith_def)
  with d(2) have r2: "findByKey [?long, ?short] ''a.#{x}'' = [?short]"
    by simp
  \<comment> \<open>a dynamic key with two matches at the same distance: the first one wins\<close>
  have base': "stripTrailingDot (beforeFirst ''user.greeting.#{type}'' ''#{'') = ''user.greeting''"
    by (simp add: stripTrailingDot_def startsWith_def)
  have "filter (\<lambda>e. key e = ''user.greeting.#{type}'') [?formal, ?casual] = []
      \<and> includesStr ''user.greeting.#{type}'' ''#{''
      \<and> stripTrailingDot (beforeFirst ''user.greeting.#{type}'' ''#{'') \<noteq> []
      \<and> (\<exists>e \<in> set [?formal, ?casual].
            startsWith (key e) (stripTrailingDot (beforeFirst ''user.greeting.#{type}'' ''#{'')))"
    unfolding base' by (simp add: startsWith_def)
  with findByKey_result[where entries = "[?formal, ?casual]" and k = "''user.greeting.#{type}''"]
  obtain earlier' e' later' where
    t: "[?formal, ?casual] = earlier' @ e' # later'"
       "findByKey [?formal, ?casual] ''user.greeting.#{type}'' = [e']"
    and tl: "\<forall>x \<in> set earlier'. startsWith (key x) ''user.greeting''
          \<longrightarrow> \<bar>int (length (key e')) - int (length ''user.greeting.#{type}'')\<bar>
                < \<bar>int (length (key x)) - int (length ''user.greeting.#{type}'')\<bar>"
    unfolding base' by blast
  from two[OF t(1)] tl have "e' = ?formal"
    by (auto simp: startsWith_def)
  with t(2) have r3: "findByKey [?formal, ?casual] ''user.greeting.#{type}'' = [?formal]"
    by simp
  \<comment> \<open>a dynamic key without a match\<close>
  have "filter (\<lambda>e. key e = ''z.#{x}'') [?long, ?short] = []
      \<and> \<not> (includesStr ''z.#{x}'' ''#{''
             \<and> stripTrailingDot (beforeFirst ''z.#{x}'' ''#{'') \<noteq> []
             \<and> (\<exists>e \<in> set [?long, ?short].
                   startsWith (key e) (stripTrailingDot (beforeFirst ''z.#{x}'' ''#{''))))"
    by (simp add: stripTrailingDot_def startsWith_def)
  with findByKey_result[where entries = "[?long, ?short]" and k = "''z.#{x}''"]
  have r4: "findByKey [?long, ?short] ''z.#{x}'' = []"
    by blast
  from r1 base r2 r3 r4 show ?thesis by simp
qed

text \<open>
  C10. A lookup key that contains \<open>#{\<close>, whose text before the marker is empty once a
  trailing dot is removed, and that no entry has as its key, finds nothing: \<open>findByKey\<close>
  returns the empty list.
\<close>

theorem findByKey_empty_base:
  assumes "includesStr k ''#{''"
    and "stripTrailingDot (beforeFirst k ''#{'') = []"
    and "\<forall>e \<in> set entries. key e \<noteq> k"
  shows "findByKey entries k = []"
  using assms by (auto simp: findByKey_def Let_def filter_empty_conv)

theorem findByKey_empty_base_witness:
  "includesStr ''.#{name}'' ''#{''
   \<and> stripTrailingDot (beforeFirst ''.#{name}'' ''#{'') = []
   \<and> \<not> (\<exists>e \<in> set [\<lparr>key = ''user.greeting.formal'', val = ''f'', sourceFile = ''/w'', lang = None, fileLine = None\<rparr>,
      \<lparr>key = ''user.greeting.casual'', val = ''c'', sourceFile = ''/w'', lang = None, fileLine = None\<rparr>]. key e = ''.#{name}'')
   \<and> findByKey [\<lparr>key = ''user.greeting.formal'', val = ''f'', sourceFile = ''/w'', lang = None, fileLine = None\<rparr>,
      \<lparr>key = ''user.greeting.casual'', val = ''c'', sourceFile = ''/w'', lang = None, fileLine = None\<rparr>] ''.#{name}'' = []"
proof -
  have h1: "includesStr ''.#{name}'' ''#{''"
    by (simp add: startsWith_def)
  have h2: "stripTrailingDot (beforeFirst ''.#{name}'' ''#{'') = []"
    by (simp add: stripTrailingDot_def startsWith_def)
  have h3: "\<forall>e \<in> set [\<lparr>key = ''user.greeting.formal'', val = ''f'', sourceFile = ''/w'', lang = None, fileLine = None\<rparr>,
      \<lparr>key = ''user.greeting.casual'', val = ''c'', sourceFile = ''/w'', lang = None, fileLine = None\<rparr>]. key e \<noteq> ''.#{name}''"
    by simp
  from findByKey_empty_base[OF h1 h2 h3] h1 h2 h3 show ?thesis by simp
qed

text \<open>
  C8. That alternative resolution returns the entry \<open>ko.x.y\<close> for the key \<open>x.y\<close> whenever
  it is the only entry of the index fails for an entry without a line number: the provider
  only considers entries that have a file and a line. The scan of the one-line file below
  yields such an entry, and the alternative resolution of \<open>x.y\<close> then finds nothing.
\<close>

theorem alternative_needs_position_counterexample:
  "scanLocaleFiles
     [\<lparr>entryName = ''ko.yml'', entryPath = ''/w/config/locales/ko.yml'',
       content = ''\"ko.x\": {y: v}'',
       parsed = Some (YMap [(''ko.x'', YMap [(''y'', YStr ''v'')])])\<rparr>]
     = [\<lparr>key = ''ko.x.y'', val = ''v'', sourceFile = ''/w/config/locales/ko.yml'',
        lang = Some ''ko'', fileLine = None\<rparr>]
   \<and> findExactKey
       [\<lparr>key = ''ko.x.y'', val = ''v'', sourceFile = ''/w/config/locales/ko.yml'',
        lang = Some ''ko'', fileLine = None\<rparr>] ''x.y'' None = None
   \<and> alternativeKeyLocations [''ko'', ''en'']
       [\<lparr>key = ''ko.x.y'', val = ''v'', sourceFile = ''/w/config/locales/ko.yml'',
        lang = Some ''ko'', fileLine = None\<rparr>] ''x.y'' = []
   \<and> findAlternativeKeyLocations
       [\<lparr>key = ''ko.x.y'', val = ''v'', sourceFile = ''/w/config/locales/ko.yml'',
        lang = Some ''ko'', fileLine = None\<rparr>] ''x.y'' = []"
  by code_simp

text \<open>
  C8, as amended. If the index contains only an entry with key \<open>ko.x.y\<close> and language
  \<open>ko\<close> that has a file and a line number, then \<open>findExactKey\<close> finds nothing for
  \<open>x.y\<close>, and alternative resolution of \<open>x.y\<close> returns the location of that entry, found by
  prepending \<open>ko.\<close>, the first code: with the codes \<open>ko\<close>, \<open>en\<close>, and with the codes the
  provider collects from the index itself.
\<close>

theorem alternative_prepends_first_code:
  assumes "key e = ''ko.x.y''"
    and "lang e = Some ''ko''"
    and "sourceFile e \<noteq> []"
    and "fileLine e = Some n"
  shows "findExactKey [e] ''x.y'' preferredLang = None
    \<and> alternativeKeyLocations [''ko'', ''en''] [e] ''x.y'' = [createLocation e]
    \<and> findAlternativeKeyLocations [e] ''x.y'' = [createLocation e]"
proof -
  have noMatch: "keyMatch ''x.y'' = None"
    by (simp add: keyMatch_def isAsciiLetter_def)
  have "findExactKey [e] ''x.y'' preferredLang = None"
    using assms(1) by (simp add: findExactKey_def)
  moreover have "alternativeKeyLocations (''ko'' # codes) [e] ''x.y'' = [createLocation e]" for codes
    using assms by (simp add: alternativeKeyLocations_def noMatch hasPosition_def truthy_def)
  moreover have "getLanguageCodes [e] = [''ko'']"
    using assms(2) by (simp add: getLanguageCodes_def truthy_def)
  ultimately show ?thesis by (simp add: findAlternativeKeyLocations_def)
qed

theorem alternative_prepends_first_code_witness:
  "findExactKey
     [\<lparr>key = ''ko.x.y'', val = ''v'', sourceFile = ''/w/config/locales/ko.yml'',
       lang = Some ''ko'', fileLine = Some 3\<rparr>] ''x.y'' None = None
   \<and> alternativeKeyLocations [''ko'', ''en'']
       [\<lparr>key = ''ko.x.y'', val = ''v'', sourceFile = ''/w/config/locales/ko.yml'',
         lang = Some ''ko'', fileLine = Some 3\<rparr>] ''x.y''
     = [\<lparr>uri = ''/w/config/locales/ko.yml'', line = 2, character = 0\<rparr>]
   \<and> findAlternativeKeyLocations
       [\<lparr>key = ''ko.x.y'', val = ''v'', sourceFile = ''/w/config/locales/ko.yml'',
         lang = Some ''ko'', fileLine = Some 3\<rparr>] ''x.y''
     = [\<lparr>uri = ''/w/config/locales/ko.yml'', line = 2, character = 0\<rparr>]"
  using alternative_prepends_first_code
    [where e = "\<lparr>key = ''ko.x.y'', val = ''v'', sourceFile = ''/w/config/locales/ko.yml'',
                 lang = Some ''ko'', fileLine = Some 3\<rparr>"
       and n = 3 and preferredLang = None]
  by (simp add: createLocation_def)

subsection \<open>Post-processing\<close>

lemma keyMatch_shape:
  "keyMatch k = Some (code, rest) \<Longrightarrow>
     k = code @ ''.'' @ rest \<and> isLanguageCode code \<and> rest \<noteq> []"
  by (auto simp: keyMatch_def isLanguageCode_def split: list.splits if_splits)

lemma normalizeEntry_same_code:
  assumes "keyMatch (key e) = Some (code, rest)" and "lang e = Some (toLowerCase code)"
  shows "normalizeEntry e = e"
proof -
  from keyMatch_shape[OF assms(1)] have "code \<noteq> []"
    by (auto simp: isLanguageCode_def)
  then have "truthy (lang e)"
    using assms(2) by (simp add: truthy_def toLowerCase_def)
  then show ?thesis
    using assms by (simp add: normalizeEntry_def)
qed

lemma mapSet_keys:
  "map fst (mapSet k v m) = (if k \<in> fst ` set m then map fst m else map fst m @ [k])"
  by (induction m) (fastforce simp: image_iff)+

lemma foldl_mapSet_distinct:
  "distinct (map fst m) \<Longrightarrow> distinct (map fst (foldl (\<lambda>m e. mapSet (f e) e m) m es))"
  by (induction es arbitrary: m) (simp_all add: mapSet_keys)

lemma foldl_mapSet_keyed:
  "\<forall>(k, e) \<in> set m. k = f e \<and> e \<in> A \<Longrightarrow> set es \<subseteq> A \<Longrightarrow>
     \<forall>(k, e) \<in> set (foldl (\<lambda>m e. mapSet (f e) e m) m es). k = f e \<and> e \<in> A"
proof (induction es arbitrary: m)
  case Nil
  then show ?case by simp
next
  case (Cons x xs)
  have "\<forall>(k, e) \<in> set (mapSet (f x) x m). k = f e \<and> e \<in> A"
    using Cons.prems set_mapSet[of "f x" x m] by auto
  from Cons.IH[OF this] Cons.prems(2) show ?case by simp
qed

lemma removeDuplicateEntries_distinct:
  "distinct (map uniqueKey (removeDuplicateEntries es))
   \<and> set (removeDuplicateEntries es) \<subseteq> set es"
proof -
  let ?m = "foldl (\<lambda>m e. mapSet (uniqueKey e) e m) [] es"
  have d: "distinct (map fst ?m)"
    by (rule foldl_mapSet_distinct) simp
  have k: "\<forall>(k, e) \<in> set ?m. k = uniqueKey e \<and> e \<in> set es"
    by (rule foldl_mapSet_keyed) simp_all
  then have "map (uniqueKey \<circ> snd) ?m = map fst ?m"
    by (intro map_cong[OF refl]) auto
  with d k show ?thesis
    unfolding removeDuplicateEntries_def by (auto simp: map_map[symmetric] simp del: map_map)
qed

lemma removeDuplicateEntries_pairs:
  "distinct (map (\<lambda>e. (langOrUnknown e, key e)) (removeDuplicateEntries es))"
  using removeDuplicateEntries_distinct[of es]
  by (auto simp: distinct_map inj_on_def uniqueKey_def)

lemma normalizeEntry_other_code:
  assumes "keyMatch (key e) = Some (code, rest)" and "lang e \<noteq> Some (toLowerCase code)"
  shows "normalizeEntry e = e\<lparr>key := rest, lang := Some (toLowerCase code)\<rparr>"
  using assms by (simp add: normalizeEntry_def)

text \<open>
  C2. That normalization strips the code from a key \<open>code.rest\<close> when the stored language
  equals the code fails: the entry \<open>en.user.name\<close> with language \<open>en\<close> comes out of
  normalization with its key unchanged.
\<close>

theorem normalize_same_code_counterexample:
  "keyMatch ''en.user.name'' = Some (''en'', ''user.name'')
   \<and> normalizeI18nKeys
       [\<lparr>key = ''en.user.name'', val = ''Name'', sourceFile = ''/w/en.yml'', lang = Some ''en'',
        fileLine = Some 1\<rparr>]
     = [\<lparr>key = ''en.user.name'', val = ''Name'', sourceFile = ''/w/en.yml'', lang = Some ''en'',
        fileLine = Some 1\<rparr>]"
  by code_simp

text \<open>
  C2, as amended. For every entry of the index whose key matches \<open>code.rest\<close> with a
  two-letter code and whose stored language equals that code in lower case, normalization
  leaves the entry as it is: its key is still \<open>code.rest\<close> and its language is unchanged.
\<close>

theorem normalize_same_code_unchanged:
  assumes "i < length entries"
    and "keyMatch (key (entries ! i)) = Some (code, rest)"
    and "lang (entries ! i) = Some (toLowerCase code)"
  shows "normalizeI18nKeys entries ! i = entries ! i
         \<and> key (normalizeI18nKeys entries ! i) = code @ ''.'' @ rest
         \<and> lang (normalizeI18nKeys entries ! i) = lang (entries ! i)"
  using assms(1) normalizeEntry_same_code[OF assms(2,3)] keyMatch_shape[OF assms(2)]
  by (simp add: normalizeI18nKeys_def)

theorem normalize_same_code_unchanged_witness:
  "keyMatch ''EN.user.name'' = Some (''EN'', ''user.name'')
   \<and> toLowerCase ''EN'' = ''en''
   \<and> key (normalizeI18nKeys
            [\<lparr>key = ''EN.user.name'', val = ''Name'', sourceFile = ''/w/en.yml'',
              lang = Some ''en'', fileLine = Some 1\<rparr>] ! 0) = ''EN.user.name''
   \<and> lang (normalizeI18nKeys
            [\<lparr>key = ''EN.user.name'', val = ''Name'', sourceFile = ''/w/en.yml'',
              lang = Some ''en'', fileLine = Some 1\<rparr>] ! 0) = Some ''en''"
proof -
  let ?es = "[\<lparr>key = ''EN.user.name'', val = ''Name'', sourceFile = ''/w/en.yml'',
               lang = Some ''en'', fileLine = Some 1\<rparr>]"
  have m: "keyMatch (key (?es ! 0)) = Some (''EN'', ''user.name'')"
    by (simp add: keyMatch_def isAsciiLetter_def isLineTerminator_def)
  have l: "toLowerCase ''EN'' = ''en''"
    by (simp add: toLowerCase_def toLowerChar_def)
  have "lang (?es ! 0) = Some (toLowerCase ''EN'')"
    unfolding l by simp
  from normalize_same_code_unchanged[OF _ m this] m l show ?thesis
    by simp
qed

subsection \<open>Position extractor\<close>

text \<open>
  C9. The position extractor trims a line before it matches it, so the indentation it
  measures is empty, and a key line, whatever the stack was before it, leaves the stack
  with the key of the line and nothing else. Whenever a round records a path, the stack
  after the line holds that path alone. So every pair \<open>(path, n)\<close> of the table comes from
  line \<open>n\<close> of the text: the trimmed line matches the key pattern with an empty
  indentation, and the path is the trimmed key text of that line, never a path qualified
  by the keys of the lines above.
\<close>

theorem position_extractor_single_segment:
  "(matchKeyLine (trim raw) = Some (indentStr, keyStr, valueStr) \<longrightarrow> indentStr = [])
   \<and> (matchKeyLine (trim raw) = Some (indentStr, keyStr, valueStr)
        \<and> \<not> startsWith (trim raw) ''#'' \<longrightarrow>
      fst (scanLine keyStack raw) = [trim keyStr])
   \<and> (scanLine keyStack raw = (keyStack', Some path) \<longrightarrow> keyStack' = [path])
   \<and> ((p, n) \<in> set (extractKeyPositions input) \<longrightarrow>
        (\<exists>i keyStr valueStr. n = i + 1 \<and> i < length (splitOn CHR 0x0A input)
           \<and> matchKeyLine (trim (splitOn CHR 0x0A input ! i)) = Some ([], keyStr, valueStr)
           \<and> p = trim keyStr))"
proof (intro conjI impI)
  assume "matchKeyLine (trim raw) = Some (indentStr, keyStr, valueStr)"
  then show "indentStr = []" by (rule matchKeyLine_trim_indent)
next
  assume a: "matchKeyLine (trim raw) = Some (indentStr, keyStr, valueStr)
             \<and> \<not> startsWith (trim raw) ''#''"
  then have "indentStr = []" using matchKeyLine_trim_indent by blast
  moreover from a have "trim raw \<noteq> []" by (auto simp: matchKeyLine_def)
  ultimately show "fst (scanLine keyStack raw) = [trim keyStr]"
    using a by (simp add: scanLine_def Let_def popStack_zero)
next
  assume "scanLine keyStack raw = (keyStack', Some path)"
  then show "keyStack' = [path]" using scanLine_records by blast
next
  let ?ls = "splitOn CHR 0x0A input"
  assume "(p, n) \<in> set (extractKeyPositions input)"
  then have "(p, n) \<in> set []
             \<or> (\<exists>j < length ?ls. n = 0 + j + 1 \<and> snd (scanLine [] (?ls ! j)) = Some p)"
    unfolding extractKeyPositions_def by (rule foldl_extractLine)
  then obtain j where j: "j < length ?ls" "n = j + 1" "snd (scanLine [] (?ls ! j)) = Some p"
    by auto
  obtain ks' where "scanLine [] (?ls ! j) = (ks', Some p)"
    using j(3) by (cases "scanLine [] (?ls ! j)") auto
  from scanLine_records[OF this] j(1,2)
  show "\<exists>i keyStr valueStr. n = i + 1 \<and> i < length ?ls
           \<and> matchKeyLine (trim (?ls ! i)) = Some ([], keyStr, valueStr) \<and> p = trim keyStr"
    by blast
qed

theorem position_extractor_single_segment_witness:
  "matchKeyLine (trim ''  b: hello'') = Some ([], ''b'', ''hello'')
   \<and> \<not> startsWith (trim ''  b: hello'') ''#''
   \<and> fst (scanLine [''a''] ''  b: hello'') = [trim ''b'']
   \<and> scanLine [''a''] ''  b: hello'' = ([''b''], Some ''b'')
   \<and> (''b'', 2) \<in> set (extractKeyPositions ''a:\<newline>  b: hello\<newline>'')
   \<and> (\<exists>i keyStr valueStr.
         2 = i + 1 \<and> i < length (splitOn CHR 0x0A ''a:\<newline>  b: hello\<newline>'')
         \<and> matchKeyLine (trim (splitOn CHR 0x0A ''a:\<newline>  b: hello\<newline>'' ! i))
             = Some ([], keyStr, valueStr)
         \<and> ''b'' = trim keyStr)"
proof -
  have h0: "matchKeyLine (trim ''  b: hello'') = Some ([], ''b'', ''hello'')"
    by code_simp
  have h1: "\<not> startsWith (trim ''  b: hello'') ''#''"
    by code_simp
  have h2: "scanLine [''a''] ''  b: hello'' = ([''b''], Some ''b'')"
    by code_simp
  have h3: "(''b'', 2) \<in> set (extractKeyPositions ''a:\<newline>  b: hello\<newline>'')"
    by code_simp
  from position_extractor_single_segment
         [where raw = "''  b: hello''" and indentStr = "[]" and keyStr = "''b''"
            and valueStr = "''hello''" and keyStack = "[''a'']" and keyStack' = "[''b'']"
            and path = "''b''" and p = "''b''" and n = 2
            and input = "''a:\<newline>  b: hello\<newline>''"]
       h0 h1 h2 h3
  show ?thesis by blast
qed

text \<open>The table of the two-line example holds one path, the key of the second line.\<close>

lemma extractKeyPositions_example:
  "extractKeyPositions ''a:\<newline>  b: hello\<newline>'' = [(''b'', 2)]"
  by code_simp

text \<open>
  C5. For the text \<open>a:\<close>, newline, \<open>  b: hello\<close>, newline, the table of the position
  extractor followed by the line-number lookup for the key \<open>a.b\<close> gives line 2.
\<close>

theorem line_lookup_example:
  "findLineNumber (extractKeyPositions ''a:\<newline>  b: hello\<newline>'') ''a.b'' = Some 2"
  by code_simp

subsection \<open>Tree flattener\<close>

text \<open>
  Every entry the tree flattener emits has a key of at most 200 code units whose parts,
  split at the dots, never repeat the part before.
\<close>

lemma flatten_keys:
  "\<forall>e \<in> set (flattenYaml t prefix filePath lang0 positions).
      length (key e) \<le> 200 \<and> distinct_adj (splitOn CHR ''.'' (key e))"
  "\<forall>e \<in> set (languageRoots obj filePath positions).
      length (key e) \<le> 200 \<and> distinct_adj (splitOn CHR ''.'' (key e))"
  "\<forall>e \<in> set (remainingKeys obj prefix filePath lang1 positions).
      length (key e) \<le> 200 \<and> distinct_adj (splitOn CHR ''.'' (key e))"
proof (induction t prefix filePath lang0 positions and obj filePath positions
        and obj prefix filePath lang1 positions
        rule: flattenYaml_languageRoots_remainingKeys.induct)
  case (6 k v obj prefix filePath lang1 positions)
  then show ?case
    by (cases v) (auto simp: Let_def normalizeDuplicateKeyParts_distinct_adj)
qed (auto simp: Let_def)

text \<open>
  C6. Flattening the mapping \<open>{ko: {a: {b: "v"}}}\<close> from the top, for any file, any
  language hint and any position table, gives exactly one entry: key \<open>a.b\<close>, value
  \<open>v\<close>, language \<open>ko\<close>. Nothing is emitted under a key that starts with \<open>ko\<close>.
\<close>

theorem flatten_language_root_example:
  "flattenYaml (YMap [(''ko'', YMap [(''a'', YMap [(''b'', YStr ''v'')])])]) [] filePath lang0 positions
   = [\<lparr>key = ''a.b'', val = ''v'', sourceFile = filePath, lang = Some ''ko'',
        fileLine = findLineNumber positions ''a.b''\<rparr>]"
  by (simp add: isLanguageRoot_def isLanguageCode_def isAsciiLetter_def isObject_def truthy_def
        toLowerCase_def toLowerChar_def newKeyOf_def normalizeDuplicateKeyParts_def
        scalarText_def Let_def)

subsection \<open>The scan pass\<close>

text \<open>
  When \<open>yaml.parse\<close> reads every file, so that the fallback line parser never runs, the
  keys of the returned index keep the two properties of the tree flattener.
\<close>

lemma letter_not_dot: "isAsciiLetter c \<Longrightarrow> c \<noteq> CHR ''.''"
  by (auto simp: isAsciiLetter_def less_eq_char_def)

lemma keyMatch_parts:
  assumes "keyMatch k = Some (code, rest)"
  shows "splitOn CHR ''.'' k = code # splitOn CHR ''.'' rest \<and> length rest \<le> length k"
  using assms
  by (auto simp: keyMatch_def splitOn_not_Nil dest: letter_not_dot split: list.splits if_splits)

lemma normalizeEntry_keeps_key_shape:
  assumes "length (key e) \<le> 200 \<and> distinct_adj (splitOn CHR ''.'' (key e))"
  shows "length (key (normalizeEntry e)) \<le> 200
         \<and> distinct_adj (splitOn CHR ''.'' (key (normalizeEntry e)))"
proof (cases "keyMatch (key e)")
  case None
  with assms show ?thesis by (simp add: normalizeEntry_def)
next
  case (Some a)
  obtain code rest where a: "a = (code, rest)" by (cases a)
  from keyMatch_parts[OF Some[unfolded a]] assms
  have "length rest \<le> 200 \<and> distinct_adj (splitOn CHR ''.'' rest)"
    by (auto simp: distinct_adj_Cons split: list.splits)
  with assms Some a show ?thesis by (simp add: normalizeEntry_def Let_def)
qed

lemma scan_parsed_files_keys:
  assumes "\<forall>f \<in> set files. parsed f \<noteq> None"
  shows "\<forall>e \<in> set (scanLocaleFiles files).
           length (key e) \<le> 200 \<and> distinct_adj (splitOn CHR ''.'' (key e))"
proof -
  have "\<forall>e \<in> set (scanFile f). length (key e) \<le> 200 \<and> distinct_adj (splitOn CHR ''.'' (key e))" if "f \<in> set files" for f
    using that assms flatten_keys(1)
    by (auto simp: scanFile_def parseYamlFile_def Let_def split: option.splits)
  then have "\<forall>e \<in> set (concat (map scanFile files)). length (key e) \<le> 200 \<and> distinct_adj (splitOn CHR ''.'' (key e))"
    by auto
  then have "\<forall>e \<in> set (removeDuplicateEntries (concat (map scanFile files))). length (key e) \<le> 200 \<and> distinct_adj (splitOn CHR ''.'' (key e))"
    using removeDuplicateEntries_distinct by blast
  then show ?thesis
    using normalizeEntry_keeps_key_shape
    by (auto simp: scanLocaleFiles_def postProcess_def normalizeI18nKeys_def)
qed

text \<open>
  C1. After a scan pass no two entries of the returned index should share key and
  language. The code removes duplicates before it normalizes the keys, and normalization
  can make two pairs of key and language equal: the scan of the file below, which
  \<open>yaml.parse\<close> reads as \<open>{en: {a: "one"}, "en.a": "two"}\<close>, returns two entries with key
  \<open>a\<close> and language \<open>en\<close>.
\<close>

theorem scan_returns_duplicate_pair:
  "scanLocaleFiles
     [\<lparr>entryName = ''app.yml'', entryPath = ''/w/config/locales/app.yml'',
       content = ''en:\<newline>  a: one\<newline>en.a: two\<newline>'',
       parsed = Some (YMap [(''en'', YMap [(''a'', YStr ''one'')]), (''en.a'', YStr ''two'')])\<rparr>]
   = [\<lparr>key = ''a'', val = ''one'', sourceFile = ''/w/config/locales/app.yml'',
        lang = Some ''en'', fileLine = Some 2\<rparr>,
      \<lparr>key = ''a'', val = ''two'', sourceFile = ''/w/config/locales/app.yml'',
        lang = Some ''en'', fileLine = Some 3\<rparr>]"
  by code_simp

text \<open>
  C3. After a scan pass no key of the index should hold two adjacent identical parts,
  whichever parser produced the entry. The fallback line parser joins the sections and
  the key of a line without dropping repeated parts, and post-processing does not drop
  them either. The text below ends in an unterminated quoted string, so \<open>yaml.parse\<close>
  throws; the scan returns an entry with the key \<open>a.a.b\<close>.
\<close>

theorem fallback_keeps_repeated_part:
  "scanLocaleFiles
     [\<lparr>entryName = ''app.yml'', entryPath = ''/w/config/locales/app.yml'',
       content = ''a:\<newline>  a:\<newline>    b: \"v\<newline>'',
       parsed = None\<rparr>]
   = [\<lparr>key = ''a.a.b'', val = ''\"v'', sourceFile = ''/w/config/locales/app.yml'',
        lang = None, fileLine = Some 3\<rparr>]"
  by code_simp

text \<open>
  C4. An entry whose key is longer than 200 code units should never reach the index, on
  the fallback path as on the others. The fallback line parser has no length guard. The
  text below is one line, a key of 201 letters with an unterminated quoted string as its
  value, so \<open>yaml.parse\<close> throws; the scan returns an entry with that key. The tree
  flattener drops the same key.
\<close>

theorem fallback_keeps_oversized_key:
  "scanLocaleFiles
     [\<lparr>entryName = ''app.yml'', entryPath = ''/w/config/locales/app.yml'',
       content = replicate 201 CHR ''k'' @ '': \"v'',
       parsed = None\<rparr>]
     = [\<lparr>key = replicate 201 CHR ''k'', val = ''\"v'',
          sourceFile = ''/w/config/locales/app.yml'', lang = None, fileLine = Some 1\<rparr>]
   \<and> scanLocaleFiles
       [\<lparr>entryName = ''app.yml'', entryPath = ''/w/config/locales/app.yml'',
         content = replicate 201 CHR ''k'' @ '': v'',
         parsed = Some (YMap [(replicate 201 CHR ''k'', YStr ''v'')])\<rparr>]
     = []"
  by code_simp

end
